theory Spec2Isabelle
  imports Complex_Main "HOL-Library.Log_Nat"
begin

section \<open>Starship reentry water-cooling calculator\<close>

text \<open>
  The script \<^verbatim>\<open>starship_water_calc.py\<close> is a straight line of assignments over eight
  constants, followed by nine print statements. It has no \<^verbatim>\<open>try\<close> statement, so a
  raised exception ends the run.

  Python's \<^verbatim>\<open>int\<close> is modelled as \<^typ>\<open>int\<close>. Python's \<^verbatim>\<open>float\<close> is an IEEE 754
  double; it is modelled as the rational number that the double stands for, and every
  operation on floats computes the exact result and rounds it to the nearest double, a
  tie going to the even significand. The exponent range is taken as unbounded: there are
  no infinities, no NaN and no subnormal numbers in this model, so what it says holds
  for runs whose values stay within the range of normal doubles, as those of the script
  do by a wide margin. The only exception the arithmetic of the script can raise in this
  model is \<^verbatim>\<open>ZeroDivisionError\<close>, from the operator \<^verbatim>\<open>/\<close>.
\<close>

subsection \<open>Doubles\<close>

text \<open>Rounding to the nearest integer, a tie going to the even one.\<close>

definition round_half_even :: "rat \<Rightarrow> int" where
  "round_half_even x =
     (let f = \<lfloor>x\<rfloor>; d = x - of_int f
      in if d < 1 / 2 then f else if 1 / 2 < d then f + 1 else if even f then f else f + 1)"

text \<open>
  The exponent of a positive rational \<open>p / q\<close> in base \<open>b\<close>, that is the integer
  \<open>e\<close> with \<open>b\<^sup>e \<le> p / q < b\<^sup>e\<^sup>+\<^sup>1\<close>: the difference of the numbers of digits of
  \<open>p\<close> and \<open>q\<close>, or one less.
\<close>

definition exponent :: "nat \<Rightarrow> rat \<Rightarrow> int" where
  "exponent b x =
     (let (p, q) = quotient_of x;
          e0 = int (floorlog b (nat p)) - int (floorlog b (nat q))
      in if of_nat b powi e0 \<le> x then e0 else e0 - 1)"

text \<open>
  The double nearest to a rational: 53 significant bits, so the last bit of a number
  between \<open>2\<^sup>e\<close> and \<open>2\<^sup>e\<^sup>+\<^sup>1\<close> is worth \<open>2\<^sup>e\<^sup>-\<^sup>5\<^sup>2\<close>.
\<close>

definition round_to_double :: "rat \<Rightarrow> rat" where
  "round_to_double x =
     (if x = 0 then 0
      else let a = \<bar>x\<bar>;
               ulp = 2 powi (exponent 2 a - 52);
               y = of_int (round_half_even (a / ulp)) * ulp
           in if x < 0 then - y else y)"

subsection \<open>Python operations\<close>

datatype py_error = ZeroDivisionError

text \<open>A float literal of the source, and an \<^verbatim>\<open>int\<close> operand of a float operation.\<close>

definition float_literal :: "rat \<Rightarrow> rat" where
  "float_literal x = round_to_double x"

definition float_of_int :: "int \<Rightarrow> rat" where
  "float_of_int i = round_to_double (of_int i)"

text \<open>
  \<^verbatim>\<open>a * b\<close>, \<^verbatim>\<open>a - b\<close> and \<^verbatim>\<open>a ** n\<close> on floats. The power is computed by the
  \<^verbatim>\<open>pow\<close> of the C library, which is taken to round like the other operations.
\<close>

definition float_mul :: "rat \<Rightarrow> rat \<Rightarrow> rat" where
  "float_mul a b = round_to_double (a * b)"

definition float_sub :: "rat \<Rightarrow> rat \<Rightarrow> rat" where
  "float_sub a b = round_to_double (a - b)"

definition float_pow :: "rat \<Rightarrow> nat \<Rightarrow> rat" where
  "float_pow a n = round_to_double (a ^ n)"

text \<open>\<^verbatim>\<open>a / b\<close> on floats: raises when the divisor is zero.\<close>

definition float_div :: "rat \<Rightarrow> rat \<Rightarrow> rat" where
  "float_div a b = round_to_double (a / b)"

definition truediv :: "rat \<Rightarrow> rat \<Rightarrow> py_error + rat" where
  "truediv a b = (if b = 0 then Inl ZeroDivisionError else Inr (float_div a b))"

text \<open>\<^verbatim>\<open>math.ceil\<close> and \<^verbatim>\<open>math.floor\<close> of a float return an \<^verbatim>\<open>int\<close>.\<close>

definition math_ceil :: "rat \<Rightarrow> int" where
  "math_ceil x = \<lceil>x\<rceil>"

definition math_floor :: "rat \<Rightarrow> int" where
  "math_floor x = \<lfloor>x\<rfloor>"

text \<open>Sequencing of statements that may raise: the first exception ends the run.\<close>

definition and_then :: "py_error + 'a \<Rightarrow> ('a \<Rightarrow> py_error + 'b) \<Rightarrow> py_error + 'b" where
  "and_then r f = (case r of Inl e \<Rightarrow> Inl e | Inr v \<Rightarrow> f v)"

subsection \<open>The constants (lines 8 to 31)\<close>

record constants =
  m_vehicle :: int
  v_orbital :: int
  fraction_max_heating :: rat
  heat_fraction :: rat
  temp_fraction :: rat
  Lv :: int
  payload_per_flight :: int
  propellant_cost_per_flight :: int

definition default_constants :: constants where
  "default_constants =
     \<lparr> m_vehicle = 120000,
       v_orbital = 7800,
       fraction_max_heating = float_literal 0.3,
       heat_fraction = float_literal 0.01,
       temp_fraction = float_literal 0.8,
       Lv = 2260000,
       payload_per_flight = 150,
       propellant_cost_per_flight = 500000 \<rparr>"

subsection \<open>The computation (lines 34 to 64)\<close>

text \<open>
  Each variable of the script is assigned once, so its value is a function of the
  constants. A variable whose right-hand side divides carries the exception of that
  division, and of every division before it that it depends on.
\<close>

definition KE_total :: "constants \<Rightarrow> rat" where
  "KE_total c =
     float_mul (float_mul (float_literal 0.5) (float_of_int (m_vehicle c)))
       (float_of_int ((v_orbital c) ^ 2))"

definition KE_max :: "constants \<Rightarrow> rat" where
  "KE_max c = float_mul (fraction_max_heating c) (KE_total c)"

definition heat_max :: "constants \<Rightarrow> rat" where
  "heat_max c = float_mul (heat_fraction c) (KE_max c)"

definition heat_to_tiles_fraction :: "constants \<Rightarrow> rat" where
  "heat_to_tiles_fraction c = float_pow (temp_fraction c) 4"

definition fraction_absorbed :: "constants \<Rightarrow> rat" where
  "fraction_absorbed c = float_sub (float_of_int 1) (heat_to_tiles_fraction c)"

definition energy_to_steam :: "constants \<Rightarrow> rat" where
  "energy_to_steam c = float_mul (fraction_absorbed c) (heat_max c)"

definition m_water_kg :: "constants \<Rightarrow> py_error + rat" where
  "m_water_kg c = truediv (energy_to_steam c) (float_of_int (Lv c))"

definition m_water_tonnes :: "constants \<Rightarrow> py_error + rat" where
  "m_water_tonnes c = and_then (m_water_kg c) (\<lambda>kg. truediv kg (float_of_int 1000))"

definition num_flights :: "constants \<Rightarrow> py_error + int" where
  "num_flights c =
     and_then (m_water_tonnes c) (\<lambda>t.
     and_then (truediv t (float_of_int (payload_per_flight c))) (\<lambda>q.
     Inr (math_ceil q)))"

definition total_cost :: "constants \<Rightarrow> py_error + int" where
  "total_cost c =
     and_then (num_flights c) (\<lambda>n. Inr (n * propellant_cost_per_flight c))"

text \<open>
  Line 64 runs after lines 58 and 61, so it is reached only when they did not raise.
\<close>

definition reentries_per_launch :: "constants \<Rightarrow> py_error + int" where
  "reentries_per_launch c =
     and_then (total_cost c) (\<lambda>_.
     and_then (m_water_tonnes c) (\<lambda>t.
     and_then (truediv (float_of_int (payload_per_flight c)) t) (\<lambda>q.
     Inr (math_floor q))))"

text \<open>
  The run of lines 34 to 64 as a whole: either some division raised, and the run ended
  there with no later variable assigned, or all eleven variables hold a value.
\<close>

record results =
  res_KE_total :: rat
  res_KE_max :: rat
  res_heat_max :: rat
  res_heat_to_tiles_fraction :: rat
  res_fraction_absorbed :: rat
  res_energy_to_steam :: rat
  res_m_water_kg :: rat
  res_m_water_tonnes :: rat
  res_num_flights :: int
  res_total_cost :: int
  res_reentries_per_launch :: int

definition calc :: "constants \<Rightarrow> py_error + results" where
  "calc c =
     and_then (m_water_kg c) (\<lambda>kg.
     and_then (m_water_tonnes c) (\<lambda>t.
     and_then (num_flights c) (\<lambda>n.
     and_then (total_cost c) (\<lambda>cost.
     and_then (reentries_per_launch c) (\<lambda>r.
     Inr \<lparr> res_KE_total = KE_total c,
           res_KE_max = KE_max c,
           res_heat_max = heat_max c,
           res_heat_to_tiles_fraction = heat_to_tiles_fraction c,
           res_fraction_absorbed = fraction_absorbed c,
           res_energy_to_steam = energy_to_steam c,
           res_m_water_kg = kg,
           res_m_water_tonnes = t,
           res_num_flights = n,
           res_total_cost = cost,
           res_reentries_per_launch = r \<rparr>)))))"

subsection \<open>Output formatting (lines 67 to 75)\<close>

text \<open>
  The f-strings of the script use six conversions: \<^verbatim>\<open>{n}\<close> and \<^verbatim>\<open>{n:,}\<close> on an
  \<^verbatim>\<open>int\<close>; \<^verbatim>\<open>{x:.2e}\<close>, \<^verbatim>\<open>{x:.2f}\<close>, \<^verbatim>\<open>{x:.0f}\<close> and \<^verbatim>\<open>{x}\<close> on a
  \<^verbatim>\<open>float\<close>. For a precision, Python rounds the exact value of the float to the
  digits asked for, a tie going to the even digit, and keeps the sign of a negative value
  that rounds to zero.
\<close>

definition digit_char :: "nat \<Rightarrow> char" where
  "digit_char d = ''0123456789'' ! d"

text \<open>The decimal digits of a natural number, most significant first.\<close>

fun digits_of :: "nat \<Rightarrow> string" where
  "digits_of n =
     (if n < 10 then [digit_char n] else digits_of (n div 10) @ [digit_char (n mod 10)])"

declare digits_of.simps [simp del]

text \<open>\<^verbatim>\<open>str\<close> of an \<^verbatim>\<open>int\<close>, which is what \<^verbatim>\<open>{n}\<close> prints.\<close>

definition str_int :: "int \<Rightarrow> string" where
  "str_int i = (if i < 0 then CHR ''-'' # digits_of (nat (- i)) else digits_of (nat i))"

text \<open>
  \<^verbatim>\<open>{n:,}\<close>: a comma after every third digit, counted from the right.
  \<open>group3\<close> works on the digits in reverse order.
\<close>

fun group3 :: "string \<Rightarrow> string" where
  "group3 (a # b # c # d # rest) = a # b # c # CHR '','' # group3 (d # rest)"
| "group3 ds = ds"

definition format_comma :: "int \<Rightarrow> string" where
  "format_comma i =
     (if i < 0 then ''-'' else '''') @ rev (group3 (rev (digits_of (nat \<bar>i\<bar>))))"

definition zero_pad :: "nat \<Rightarrow> string \<Rightarrow> string" where
  "zero_pad n s = replicate (n - length s) CHR ''0'' @ s"

text \<open>\<^verbatim>\<open>{x:.nf}\<close>: fixed notation with \<open>n\<close> digits after the point.\<close>

definition format_f :: "nat \<Rightarrow> rat \<Rightarrow> string" where
  "format_f n x =
     (let m = nat (round_half_even (\<bar>x\<bar> * 10 ^ n))
      in (if x < 0 then ''-'' else '''')
         @ digits_of (m div 10 ^ n)
         @ (if n = 0 then '''' else CHR ''.'' # zero_pad n (digits_of (m mod 10 ^ n))))"

text \<open>
  \<^verbatim>\<open>{x:.ne}\<close>: scientific notation, one digit before the point and \<open>n\<close> after it,
  then the exponent with its sign and at least two digits. A mantissa that rounds up to
  ten is printed as one, with the next exponent.
\<close>

definition format_e :: "nat \<Rightarrow> rat \<Rightarrow> string" where
  "format_e n x =
     (let a = \<bar>x\<bar>;
          e0 = (if a = 0 then 0 else exponent 10 a);
          m0 = nat (round_half_even (a / 10 powi e0 * 10 ^ n));
          carry = (m0 = 10 ^ (n + 1));
          m = (if carry then 10 ^ n else m0);
          e = (if carry then e0 + 1 else e0)
      in (if x < 0 then ''-'' else '''')
         @ digits_of (m div 10 ^ n)
         @ (if n = 0 then '''' else CHR ''.'' # zero_pad n (digits_of (m mod 10 ^ n)))
         @ ''e'' @ (if e < 0 then ''-'' else ''+'') @ zero_pad 2 (digits_of (nat \<bar>e\<bar>)))"

text \<open>
  \<^verbatim>\<open>{x}\<close> on a float prints \<^verbatim>\<open>repr(x)\<close>: the shortest decimal that reads
  back as the same double and, among those, the nearest to it; in positional notation
  with at least one digit after the point when the decimal exponent lies between -4 and
  15, in exponent notation otherwise. A decimal is a pair \<open>(k, s)\<close> that stands for
  \<open>k * 10\<^sup>s\<close>.
\<close>

definition decimal_candidates :: "nat \<Rightarrow> rat \<Rightarrow> (int \<times> int) list" where
  "decimal_candidates n x =
     (let s = exponent 10 x - int n + 1;
          y = x / 10 powi s;
          lo = \<lfloor>y\<rfloor>;
          hi = lo + 1
      in if round_half_even y = lo then [(lo, s), (hi, s)] else [(hi, s), (lo, s)])"

definition reads_back :: "rat \<Rightarrow> int \<times> int \<Rightarrow> bool" where
  "reads_back x ks = (round_to_double (of_int (fst ks) * 10 powi (snd ks)) = x)"

fun shortest_decimal :: "nat \<Rightarrow> nat \<Rightarrow> rat \<Rightarrow> int \<times> int" where
  "shortest_decimal 0 n x = hd (decimal_candidates n x)"
| "shortest_decimal (Suc fuel) n x =
     (case filter (reads_back x) (decimal_candidates n x) of
        ks # _ \<Rightarrow> ks
      | [] \<Rightarrow> shortest_decimal fuel (Suc n) x)"

text \<open>The number of digits after the point that a terminating decimal needs.\<close>

fun decimals :: "nat \<Rightarrow> rat \<Rightarrow> nat" where
  "decimals 0 x = 0"
| "decimals (Suc fuel) x = (if x = of_int \<lfloor>x\<rfloor> then 0 else Suc (decimals fuel (x * 10)))"

fun strip_zeros :: "nat \<Rightarrow> nat \<Rightarrow> nat" where
  "strip_zeros 0 k = k"
| "strip_zeros (Suc fuel) k =
     (if k \<noteq> 0 \<and> k mod 10 = 0 then strip_zeros fuel (k div 10) else k)"

definition float_repr :: "rat \<Rightarrow> string" where
  "float_repr x =
     (if x = 0 then ''0.0''
      else let (k, s) = shortest_decimal 16 1 \<bar>x\<bar>;
               d = of_int k * 10 powi s;
               e = exponent 10 d;
               ds = digits_of (strip_zeros 17 (nat k))
           in (if x < 0 then ''-'' else '''')
              @ (if - 4 \<le> e \<and> e \<le> 15 then format_f (max 1 (decimals 25 d)) d
                 else hd ds # (if tl ds = [] then '''' else CHR ''.'' # tl ds)
                      @ ''e'' @ (if e < 0 then ''-'' else ''+'')
                      @ zero_pad 2 (digits_of (nat \<bar>e\<bar>))))"

text \<open>
  The run of the whole script. The nine \<^verbatim>\<open>print\<close> statements come after every
  assignment, so a run that raises prints nothing, and a run that does not raise prints
  these nine lines, in this order.
\<close>

definition program :: "constants \<Rightarrow> py_error + string list" where
  "program c =
     and_then (calc c) (\<lambda>r. Inr
       [ ''Total kinetic energy: '' @ format_e 2 (res_KE_total r) @ '' J'',
         ''KE during max heating (''
           @ float_repr (float_mul (fraction_max_heating c) (float_of_int 100)) @ ''%): ''
           @ format_e 2 (res_KE_max r) @ '' J'',
         ''Heat during max heating (heat_fraction '' @ float_repr (heat_fraction c) @ ''): ''
           @ format_e 2 (res_heat_max r) @ '' J'',
         ''Fraction absorbed by water: '' @ format_f 2 (res_fraction_absorbed r),
         ''Energy to steam: '' @ format_e 2 (res_energy_to_steam r) @ '' J'',
         ''Required water mass: '' @ format_f 0 (res_m_water_tonnes r) @ '' metric tonnes'',
         ''Number of flights needed: '' @ str_int (res_num_flights r),
         ''Total cost to deliver water to orbit: $'' @ format_comma (res_total_cost r) @ '' USD'',
         ''Reentries supplied per launch (including freighter): ''
           @ str_int (res_reentries_per_launch r) ])"

subsection \<open>The shapes of the printed values\<close>

definition is_digit :: "char \<Rightarrow> bool" where
  "is_digit ch = (ch \<in> set ''0123456789'')"

definition is_digits :: "string \<Rightarrow> bool" where
  "is_digits s = (s \<noteq> [] \<and> list_all is_digit s)"

text \<open>A string without its leading minus sign, if it has one.\<close>

definition unsigned :: "string \<Rightarrow> string" where
  "unsigned s = (case s of [] \<Rightarrow> [] | ch # r \<Rightarrow> if ch = CHR ''-'' then r else s)"

text \<open>An integer in plain decimal notation: \<^verbatim>\<open>52\<close>, \<^verbatim>\<open>-7\<close>.\<close>

definition is_plain_int :: "string \<Rightarrow> bool" where
  "is_plain_int s = is_digits (unsigned s)"

text \<open>Fixed notation with two decimal places: \<^verbatim>\<open>0.59\<close>.\<close>

definition is_fixed2 :: "string \<Rightarrow> bool" where
  "is_fixed2 s =
     (case rev (unsigned s) of
        d2 # d1 # p # ip \<Rightarrow> is_digit d2 \<and> is_digit d1 \<and> p = CHR ''.'' \<and> is_digits ip
      | _ \<Rightarrow> False)"

text \<open>Scientific notation with two decimal places: \<^verbatim>\<open>3.65e+12\<close>.\<close>

definition is_sci2 :: "string \<Rightarrow> bool" where
  "is_sci2 s =
     (case unsigned s of
        d0 # p # d1 # d2 # e # sg # ex \<Rightarrow>
          is_digit d0 \<and> p = CHR ''.'' \<and> is_digit d1 \<and> is_digit d2 \<and> e = CHR ''e''
          \<and> (sg = CHR ''+'' \<or> sg = CHR ''-'') \<and> 2 \<le> length ex \<and> list_all is_digit ex
      | _ \<Rightarrow> False)"

text \<open>
  Digits in groups of three separated by commas, the leftmost group of one to three
  digits: \<^verbatim>\<open>500,000\<close>. \<open>is_grouped_rev\<close> reads the string from the right.
\<close>

fun is_grouped_rev :: "string \<Rightarrow> bool" where
  "is_grouped_rev (a # b # c # d # rest) =
     (is_digit a \<and> is_digit b \<and> is_digit c \<and> d = CHR '','' \<and> is_grouped_rev rest)"
| "is_grouped_rev ds = is_digits ds"

definition is_grouped_int :: "string \<Rightarrow> bool" where
  "is_grouped_int s = is_grouped_rev (rev (unsigned s))"

subsection \<open>The formula chain of the specification\<close>


subsection \<open>The default constants with one of them changed\<close>


definition with_temp_fraction :: "rat \<Rightarrow> constants" where
  "with_temp_fraction a = default_constants \<lparr> temp_fraction := a \<rparr>"


section \<open>Properties\<close>

subsection \<open>Rounding, ties to even\<close>

lemma round_half_even_cases:
  "round_half_even x = \<lfloor>x\<rfloor> \<or> round_half_even x = \<lfloor>x\<rfloor> + 1"
  by (simp add: round_half_even_def Let_def)

lemma round_half_even_nearest: "\<bar>of_int (round_half_even x) - x\<bar> \<le> 1 / 2"
proof -
  have "of_int \<lfloor>x\<rfloor> \<le> x" "x < of_int \<lfloor>x\<rfloor> + 1"
    by linarith+
  then show ?thesis
    by (auto simp: round_half_even_def Let_def abs_le_iff)
qed

lemma round_half_even_ge: "of_int k \<le> x \<Longrightarrow> k \<le> round_half_even x"
proof -
  assume "of_int k \<le> x"
  then have "k \<le> \<lfloor>x\<rfloor>" by (simp add: le_floor_iff)
  then show ?thesis
    using round_half_even_cases [of x] by auto
qed

lemma round_half_even_le: "x \<le> of_int k \<Longrightarrow> round_half_even x \<le> k"
proof (cases "x = of_int k")
  case True
  then show ?thesis by (simp add: round_half_even_def)
next
  case False
  assume "x \<le> of_int k"
  then have "x < of_int k" using False by simp
  then have "\<lfloor>x\<rfloor> < k" by (simp add: floor_less_iff)
  then show ?thesis
    using round_half_even_cases [of x] by auto
qed

lemma round_half_even_unique: "\<bar>of_int k - x\<bar> < 1 / 2 \<Longrightarrow> round_half_even x = k"
proof -
  assume k: "\<bar>of_int k - x\<bar> < 1 / 2"
  have "\<bar>of_int (round_half_even x) - x\<bar> \<le> 1 / 2"
    by (rule round_half_even_nearest)
  then have "\<bar>(of_int (round_half_even x) :: rat) - of_int k\<bar> < 1"
    using k by linarith
  then have "\<bar>(of_int (round_half_even x - k) :: rat)\<bar> < of_int 1"
    by simp
  then have "\<bar>round_half_even x - k\<bar> < 1"
    by (simp only: of_int_abs [symmetric] of_int_less_iff)
  then show ?thesis by simp
qed

lemma round_half_even_of_int: "round_half_even (of_int k) = k"
  by (simp add: round_half_even_def)


subsection \<open>The exponent of a positive rational\<close>

lemma powi_Suc: "0 < b \<Longrightarrow> (of_nat b :: rat) powi (e + 1) = of_nat b * of_nat b powi e"
  by (simp add: power_int_add)

lemma powi_diff: "0 < b \<Longrightarrow> (of_nat b :: rat) powi (int m - int n) = of_nat b ^ m / of_nat b ^ n"
  by (simp add: power_int_diff)

lemma powi_mono: "1 < b \<Longrightarrow> d \<le> e \<Longrightarrow> (of_nat b :: rat) powi d \<le> of_nat b powi e"
  by (simp add: power_int_increasing)

lemma quotient_of_pos:
  "0 < x \<Longrightarrow> quotient_of x = (p, q) \<Longrightarrow> 0 < p \<and> 0 < q \<and> x = of_int p / of_int q"
proof -
  assume x: "0 < x" and pq: "quotient_of x = (p, q)"
  have q: "0 < q" using pq by (rule quotient_of_denom_pos)
  have eq: "x = of_int p / of_int q" using pq by (rule quotient_of_div)
  have "0 < p"
    using x q eq by (simp add: zero_less_divide_iff)
  then show ?thesis using q eq by simp
qed

lemma floorlog_bounds_rat:
  "1 < b \<Longrightarrow> 0 < p \<Longrightarrow>
   (of_nat b :: rat) ^ (floorlog b (nat p) - 1) \<le> of_int p
   \<and> of_int p < (of_nat b :: rat) ^ floorlog b (nat p)"
proof -
  assume b: "1 < b" and p: "0 < p"
  have n: "b ^ (floorlog b (nat p) - 1) \<le> nat p" "nat p < b ^ floorlog b (nat p)"
    using floorlog_bounds [of "nat p" b] b p by simp_all
  have rp: "(of_int p :: rat) = of_nat (nat p)"
    using p by simp
  have "(of_nat (b ^ (floorlog b (nat p) - 1)) :: rat) \<le> of_nat (nat p)"
    using n(1) by (simp only: of_nat_le_iff)
  moreover have "(of_nat (nat p) :: rat) < of_nat (b ^ floorlog b (nat p))"
    using n(2) by (simp only: of_nat_less_iff)
  ultimately show ?thesis
    unfolding rp by (simp only: of_nat_power)
qed

lemma exponent_bounds:
  "1 < b \<Longrightarrow> 0 < x \<Longrightarrow>
   of_nat b powi (exponent b x) \<le> x \<and> x < of_nat b powi (exponent b x + 1)"
proof -
  assume b: "1 < b" and x: "0 < x"
  define B :: rat where "B = of_nat b"
  have B1: "1 < B" and B0: "0 < B"
    using b by (simp_all add: B_def)
  obtain p q where pq: "quotient_of x = (p, q)"
    by (cases "quotient_of x")
  have pos: "0 < p" "0 < q" and eq: "x = of_int p / of_int q"
    using quotient_of_pos [OF x pq] by simp_all
  define m where "m = floorlog b (nat p)"
  define n where "n = floorlog b (nat q)"
  define e0 where "e0 = int m - int n"
  have plo: "B ^ (m - 1) \<le> of_int p" and phi: "of_int p < B ^ m"
    using floorlog_bounds_rat [OF b pos(1)] by (simp_all add: m_def B_def)
  have qlo: "B ^ (n - 1) \<le> of_int q" and qhi: "of_int q < B ^ n"
    using floorlog_bounds_rat [OF b pos(2)] by (simp_all add: n_def B_def)
  have "m \<noteq> 0" and "n \<noteq> 0"
    using b pos by (simp_all add: m_def n_def floorlog_eq_zero_iff)
  then have m1: "0 < m" and n1: "0 < n"
    by simp_all
  have qpos: "(0::rat) < of_int q" using pos by simp
  have tm: "B ^ m = B * B ^ (m - 1)"
    using m1 by (cases m) simp_all
  have tn: "B ^ n = B * B ^ (n - 1)"
    using n1 by (cases n) simp_all
  have pw: "B powi e0 = B ^ m / B ^ n"
    using b by (simp add: e0_def B_def powi_diff)
  have pw1: "B powi (e0 + 1) = B * B powi e0"
    using b by (simp add: B_def powi_Suc)
  have hi: "x < B powi (e0 + 1)"
  proof -
    have "of_int p * B ^ n < B ^ m * B ^ n"
      using phi B0 by simp
    also have "\<dots> = B ^ m * (B * B ^ (n - 1))"
      using tn by simp
    also have "\<dots> \<le> B ^ m * (B * of_int q)"
      using qlo B0 by simp
    finally have "rat_of_int p / rat_of_int q < B * (B ^ m / B ^ n)"
      using qpos B0 by (simp add: field_simps)
    then show ?thesis
      by (simp add: eq pw pw1)
  qed
  have lo: "B powi (e0 - 1) \<le> x"
  proof -
    have "B ^ m * of_int q \<le> B ^ m * B ^ n"
      using qhi B0 by simp
    also have "\<dots> = (B * B ^ (m - 1)) * B ^ n"
      using tm by simp
    also have "\<dots> \<le> (B * of_int p) * B ^ n"
      using plo B0 by simp
    finally have "B ^ m / B ^ n \<le> B * (rat_of_int p / rat_of_int q)"
      using qpos B0 by (simp add: field_simps)
    then have "B powi e0 \<le> B * x"
      by (simp add: eq pw)
    moreover have "B powi e0 = B * B powi (e0 - 1)"
      using powi_Suc [of b "e0 - 1"] b by (simp add: B_def)
    ultimately show ?thesis using B0 by simp
  qed
  have ex: "exponent b x = (if B powi e0 \<le> x then e0 else e0 - 1)"
    by (simp add: exponent_def pq m_def n_def e0_def B_def Let_def)
  show ?thesis
  proof (cases "B powi e0 \<le> x")
    case True
    then show ?thesis using hi ex by (simp add: B_def)
  next
    case False
    then show ?thesis using lo ex by (simp add: B_def)
  qed
qed

lemma exponent_unique:
  "1 < b \<Longrightarrow> 0 < x \<Longrightarrow> of_nat b powi e \<le> x \<Longrightarrow> x < of_nat b powi (e + 1) \<Longrightarrow>
   exponent b x = e"
proof -
  assume b: "1 < b" and x: "0 < x"
    and lo: "of_nat b powi e \<le> x" and hi: "x < of_nat b powi (e + 1)"
  have bd: "of_nat b powi (exponent b x) \<le> x" "x < of_nat b powi (exponent b x + 1)"
    using exponent_bounds [OF b x] by simp_all
  have "\<not> exponent b x < e"
  proof
    assume "exponent b x < e"
    then have "(of_nat b :: rat) powi (exponent b x + 1) \<le> of_nat b powi e"
      using b by (intro powi_mono) simp_all
    then show False using lo bd(2) by simp
  qed
  moreover have "\<not> e < exponent b x"
  proof
    assume "e < exponent b x"
    then have "(of_nat b :: rat) powi (e + 1) \<le> of_nat b powi (exponent b x)"
      using b by (intro powi_mono) simp_all
    then show False using hi bd(1) by simp
  qed
  ultimately show ?thesis by simp
qed


subsection \<open>Rounding to a double\<close>

lemma exponent2_bounds:
  "0 < x \<Longrightarrow> 2 powi (exponent 2 x) \<le> x \<and> x < 2 powi (exponent 2 x + 1)"
  using exponent_bounds [of 2 x] by simp

lemma exponent2_unique:
  "0 < x \<Longrightarrow> 2 powi e \<le> x \<Longrightarrow> x < 2 powi (e + 1) \<Longrightarrow> exponent 2 x = e"
  using exponent_unique [of 2 x e] by simp

lemma round_to_double_zero: "round_to_double 0 = 0"
  by (simp add: round_to_double_def)

lemma round_to_double_pos:
  "0 < x \<Longrightarrow>
   round_to_double x =
     of_int (round_half_even (x / 2 powi (exponent 2 x - 52))) * 2 powi (exponent 2 x - 52)"
  by (simp add: round_to_double_def Let_def)

lemma round_to_double_minus: "round_to_double (- x) = - round_to_double x"
  by (cases "x = 0") (auto simp: round_to_double_def Let_def)

lemma round_to_double_eval:
  "0 < x \<Longrightarrow> 2 powi e \<le> x \<Longrightarrow> x < 2 powi (e + 1) \<Longrightarrow>
   \<bar>of_int m - x / 2 powi (e - 52)\<bar> < 1 / 2 \<Longrightarrow>
   round_to_double x = of_int m * 2 powi (e - 52)"
proof -
  assume x: "0 < x" and lo: "2 powi e \<le> x" and hi: "x < 2 powi (e + 1)"
    and r: "\<bar>of_int m - x / 2 powi (e - 52)\<bar> < 1 / 2"
  have e: "exponent 2 x = e"
    using x lo hi by (rule exponent2_unique)
  have "round_half_even (x / 2 powi (e - 52)) = m"
    using r by (rule round_half_even_unique)
  then show ?thesis
    using x by (simp only: round_to_double_pos e)
qed

text \<open>The double nearest to a positive number lies in the same binade, ends included.\<close>

lemma round_to_double_binade:
  "0 < x \<Longrightarrow>
   2 powi (exponent 2 x) \<le> round_to_double x \<and> round_to_double x \<le> 2 powi (exponent 2 x + 1)"
proof -
  assume x: "0 < x"
  define e where "e = exponent 2 x"
  define ulp :: rat where "ulp = 2 powi (e - 52)"
  have ulp: "0 < ulp" by (simp add: ulp_def)
  have lo: "2 powi e \<le> x" and hi: "x < 2 powi (e + 1)"
    using exponent2_bounds [OF x] by (simp_all add: e_def)
  have p52: "2 powi e = 2 ^ 52 * ulp"
    using power_int_add [of "2::rat" 52 "e - 52"] by (simp add: ulp_def)
  have p53: "2 powi (e + 1) = 2 ^ 53 * ulp"
    using power_int_add [of "2::rat" 53 "e - 52"] by (simp add: ulp_def add.commute)
  have lo': "2 ^ 52 * ulp \<le> x"
    using lo unfolding p52 .
  have hi': "x < 2 ^ 53 * ulp"
    using hi unfolding p53 .
  have "of_int (2 ^ 52) \<le> x / ulp"
    using lo' ulp by (simp add: field_simps)
  then have a: "2 ^ 52 \<le> round_half_even (x / ulp)"
    by (rule round_half_even_ge)
  have "x / ulp \<le> of_int (2 ^ 53)"
    using hi' ulp by (simp add: field_simps)
  then have b: "round_half_even (x / ulp) \<le> 2 ^ 53"
    by (rule round_half_even_le)
  have r: "round_to_double x = of_int (round_half_even (x / ulp)) * ulp"
    using x by (simp add: round_to_double_pos e_def ulp_def)
  have "(2 ^ 52 :: rat) \<le> of_int (round_half_even (x / ulp))"
    using a by (metis of_int_le_iff of_int_numeral of_int_power)
  then have c: "2 ^ 52 * ulp \<le> of_int (round_half_even (x / ulp)) * ulp"
    using ulp by simp
  have "(of_int (round_half_even (x / ulp)) :: rat) \<le> 2 ^ 53"
    using b by (metis of_int_le_iff of_int_numeral of_int_power)
  then have d: "of_int (round_half_even (x / ulp)) * ulp \<le> 2 ^ 53 * ulp"
    using ulp by simp
  show ?thesis
    using c d by (simp only: r p52 p53 e_def [symmetric])
qed

lemma round_to_double_pos_pos: "0 < x \<Longrightarrow> 0 < round_to_double x"
proof -
  assume x: "0 < x"
  have "(0::rat) < 2 powi (exponent 2 x)" by simp
  then show ?thesis
    using round_to_double_binade [OF x] by linarith
qed

lemma round_to_double_neg_neg: "x < 0 \<Longrightarrow> round_to_double x < 0"
  using round_to_double_pos_pos [of "- x"] by (simp add: round_to_double_minus)

lemma round_to_double_eq_0_iff: "round_to_double x = 0 \<longleftrightarrow> x = 0"
proof
  assume r: "round_to_double x = 0"
  show "x = 0"
  proof (rule ccontr)
    assume "x \<noteq> 0"
    then consider "0 < x" | "x < 0" by linarith
    then show False
    proof cases
      case 1
      then show False using round_to_double_pos_pos [of x] r by simp
    next
      case 2
      then show False using round_to_double_neg_neg [of x] r by simp
    qed
  qed
next
  assume "x = 0"
  then show "round_to_double x = 0" by (simp add: round_to_double_zero)
qed



text \<open>An integer of magnitude below \<open>2\<^sup>5\<^sup>3\<close> is a double.\<close>

lemma round_to_double_int_pos:
  "0 < i \<Longrightarrow> i < 2 ^ 53 \<Longrightarrow> round_to_double (of_int i) = of_int i"
proof -
  assume i: "0 < i" and b: "i < 2 ^ 53"
  define e where "e = exponent 2 (of_int i)"
  have x: "(0::rat) < of_int i" using i by simp
  have lo: "2 powi e \<le> (of_int i :: rat)"
    using exponent2_bounds [OF x] by (simp add: e_def)
  have "(of_int i :: rat) < of_int (2 ^ 53)"
    using b by (simp only: of_int_less_iff)
  then have "(2::rat) powi e < 2 powi 53"
    using lo by simp
  then have "e < 53"
    by (rule power_int_le_imp_less_exp [rotated]) simp_all
  define k where "k = nat (52 - e)"
  have k: "52 - e = int k"
    using \<open>e < 53\<close> by (simp add: k_def)
  have ulp: "(2::rat) powi (e - 52) = 1 / 2 ^ k"
  proof -
    have "e - 52 = - int k" using k by simp
    then show ?thesis
      by (simp add: power_int_minus inverse_eq_divide)
  qed
  have "of_int i / (2::rat) powi (e - 52) = of_int (i * 2 ^ k)"
    by (simp add: ulp)
  then have "round_half_even (of_int i / 2 powi (e - 52)) = i * 2 ^ k"
    by (simp only: round_half_even_of_int)
  then have "round_to_double (of_int i) = of_int (i * 2 ^ k) * 2 powi (e - 52)"
    using x by (simp only: round_to_double_pos e_def)
  then show ?thesis
    by (simp add: ulp)
qed

lemma float_of_int_exact: "\<bar>i\<bar> < 2 ^ 53 \<Longrightarrow> float_of_int i = of_int i"
proof -
  assume b: "\<bar>i\<bar> < 2 ^ 53"
  consider "i = 0" | "0 < i" | "i < 0" by linarith
  then show ?thesis
  proof cases
    case 1
    then show ?thesis by (simp add: float_of_int_def round_to_double_zero)
  next
    case 2
    then show ?thesis
      using b by (simp add: float_of_int_def round_to_double_int_pos)
  next
    case 3
    then have "0 < - i" "- i < 2 ^ 53" using b by simp_all
    then have "round_to_double (of_int (- i)) = of_int (- i)"
      by (rule round_to_double_int_pos)
    then show ?thesis
      by (simp add: float_of_int_def round_to_double_minus)
  qed
qed

lemma float_of_int_eq_0_iff: "float_of_int i = 0 \<longleftrightarrow> i = 0"
  by (simp add: float_of_int_def round_to_double_eq_0_iff)

subsection \<open>The roundings of the run with the default constants\<close>

lemma float_literal_03: "float_literal (3 / 10) = 5404319552844595 / 18014398509481984"
  unfolding float_literal_def
  by (subst round_to_double_eval [where e = "- 2" and m = 5404319552844595]) simp_all

lemma float_literal_001: "float_literal (1 / 100) = 5764607523034235 / 576460752303423488"
  unfolding float_literal_def
  by (subst round_to_double_eval [where e = "- 7" and m = 5764607523034235]) simp_all

lemma float_literal_08: "float_literal (4 / 5) = 3602879701896397 / 4503599627370496"
  unfolding float_literal_def
  by (subst round_to_double_eval [where e = "- 1" and m = 7205759403792794]) simp_all

lemma float_literal_05: "float_literal (1 / 2) = 1 / 2"
  unfolding float_literal_def
  by (subst round_to_double_eval [where e = "- 1" and m = 4503599627370496]) simp_all

lemma float_mul_half_m_vehicle: "float_mul (1 / 2) 120000 = 60000"
  unfolding float_mul_def
  by (subst round_to_double_eval [where e = 15 and m = 8246337208320000]) simp_all

lemma float_mul_KE_total: "float_mul 60000 60840000 = 3650400000000"
  unfolding float_mul_def
  by (subst round_to_double_eval [where e = 41 and m = 7476019200000000]) simp_all

lemma float_mul_KE_max: "float_mul (5404319552844595 / 18014398509481984) 3650400000000 = 1095120000000"
  unfolding float_mul_def
  by (subst round_to_double_eval [where e = 39 and m = 8971223040000000]) simp_all

lemma float_mul_heat_max: "float_mul (5764607523034235 / 576460752303423488) 1095120000000 = 10951200000"
  unfolding float_mul_def
  by (subst round_to_double_eval [where e = 33 and m = 5741582745600000]) simp_all

lemma float_pow_tiles: "float_pow (3602879701896397 / 4503599627370496) 4 = 3689348814741911 / 9007199254740992"
  unfolding float_pow_def
  by (subst round_to_double_eval [where e = "- 2" and m = 7378697629483822]) (simp_all add: power_divide)

lemma float_sub_absorbed: "float_sub 1 (3689348814741911 / 9007199254740992) = 5317850439999081 / 9007199254740992"
  unfolding float_sub_def
  by (subst round_to_double_eval [where e = "- 1" and m = 5317850439999081]) simp_all

lemma float_mul_steam: "float_mul (5317850439999081 / 9007199254740992) 10951200000 = 6779660906004479 / 1048576"
  unfolding float_mul_def
  by (subst round_to_double_eval [where e = 32 and m = 6779660906004479]) simp_all

lemma float_div_kg: "float_div (6779660906004479 / 1048576) 2260000 = 786392667497185 / 274877906944"
  unfolding float_div_def
  by (subst round_to_double_eval [where e = 11 and m = 6291141339977480]) simp_all

lemma float_div_tonnes: "float_div (786392667497185 / 274877906944) 1000 = 1610532183034235 / 562949953421312"
  unfolding float_div_def
  by (subst round_to_double_eval [where e = 1 and m = 6442128732136940]) simp_all

lemma float_div_flights: "float_div (1610532183034235 / 562949953421312) 150 = 5497283184756855 / 288230376151711744"
  unfolding float_div_def
  by (subst round_to_double_eval [where e = "- 6" and m = 5497283184756855]) simp_all

lemma float_div_reentries: "float_div 150 (1610532183034235 / 562949953421312) = 3689533342559423 / 70368744177664"
  unfolding float_div_def
  by (subst round_to_double_eval [where e = 5 and m = 7379066685118846]) simp_all

lemma float_mul_percent: "float_mul (5404319552844595 / 18014398509481984) 100 = 30"
  unfolding float_mul_def
  by (subst round_to_double_eval [where e = 4 and m = 8444249301319680]) simp_all

subsection \<open>Evaluation rules\<close>

lemma truediv_nonzero: "b \<noteq> 0 \<Longrightarrow> truediv a b = Inr (float_div a b)"
  by (simp add: truediv_def)

lemma truediv_zero: "truediv a 0 = Inl ZeroDivisionError"
  by (simp add: truediv_def)

lemma and_then_Inr: "and_then (Inr v) f = f v"
  by (simp add: and_then_def)

lemma and_then_Inl: "and_then (Inl e) f = Inl e"
  by (simp add: and_then_def)

text \<open>Only one error exists, so a run that raised raised it.\<close>

lemma py_error_only: "(e::py_error) = ZeroDivisionError"
  by (cases e) simp

lemma float_mul_zero: "float_mul 0 b = 0" "float_mul a 0 = 0"
  by (simp_all add: float_mul_def round_to_double_zero)

lemma float_div_zero: "float_div 0 b = 0"
  by (simp add: float_div_def round_to_double_zero)

lemma float_of_int_small:
  "float_of_int 1 = 1" "float_of_int 100 = 100" "float_of_int 150 = 150"
  "float_of_int 1000 = 1000" "float_of_int 120000 = 120000"
  "float_of_int 2260000 = 2260000" "float_of_int 60840000 = 60840000"
  using float_of_int_exact [of 1] float_of_int_exact [of 100] float_of_int_exact [of 150]
    float_of_int_exact [of 1000] float_of_int_exact [of 120000]
    float_of_int_exact [of 2260000] float_of_int_exact [of 60840000]
  by simp_all

lemma default_fields:
  "m_vehicle default_constants = 120000"
  "v_orbital default_constants = 7800"
  "fraction_max_heating default_constants = 5404319552844595 / 18014398509481984"
  "heat_fraction default_constants = 5764607523034235 / 576460752303423488"
  "temp_fraction default_constants = 3602879701896397 / 4503599627370496"
  "Lv default_constants = 2260000"
  "payload_per_flight default_constants = 150"
  "propellant_cost_per_flight default_constants = 500000"
  by (simp_all add: default_constants_def float_literal_03 float_literal_001 float_literal_08)

subsection \<open>Step rules: each line from the values of the lines before\<close>

lemma m_water_kg_step:
  "Lv c \<noteq> 0 \<Longrightarrow> m_water_kg c = Inr (float_div (energy_to_steam c) (float_of_int (Lv c)))"
  by (simp add: m_water_kg_def truediv_def float_of_int_eq_0_iff)

lemma m_water_kg_raise: "Lv c = 0 \<Longrightarrow> m_water_kg c = Inl ZeroDivisionError"
  by (simp add: m_water_kg_def truediv_def float_of_int_eq_0_iff)

lemma m_water_tonnes_step:
  "m_water_kg c = Inr kg \<Longrightarrow> m_water_tonnes c = Inr (float_div kg 1000)"
  by (simp add: m_water_tonnes_def truediv_def and_then_def float_of_int_small)



lemma num_flights_step:
  "m_water_tonnes c = Inr t \<Longrightarrow> payload_per_flight c \<noteq> 0 \<Longrightarrow>
   num_flights c = Inr \<lceil>float_div t (float_of_int (payload_per_flight c))\<rceil>"
  by (simp add: num_flights_def truediv_def and_then_def math_ceil_def float_of_int_eq_0_iff)


lemma total_cost_step:
  "num_flights c = Inr n \<Longrightarrow> total_cost c = Inr (n * propellant_cost_per_flight c)"
  by (simp add: total_cost_def and_then_def)


lemma reentries_per_launch_step:
  "total_cost c = Inr k \<Longrightarrow> m_water_tonnes c = Inr t \<Longrightarrow> t \<noteq> 0 \<Longrightarrow>
   reentries_per_launch c = Inr \<lfloor>float_div (float_of_int (payload_per_flight c)) t\<rfloor>"
  by (simp add: reentries_per_launch_def truediv_def and_then_def math_floor_def)

lemma reentries_per_launch_raise:
  "m_water_tonnes c = Inr 0 \<Longrightarrow> reentries_per_launch c = Inl ZeroDivisionError"
  by (cases "total_cost c")
     (simp_all add: reentries_per_launch_def truediv_def and_then_def py_error_only)

lemma calc_raise:
  "reentries_per_launch c = Inl e \<Longrightarrow> calc c = Inl ZeroDivisionError"
  by (simp add: calc_def and_then_def py_error_only split: sum.splits)

lemma calc_step:
  "m_water_kg c = Inr kg \<Longrightarrow> m_water_tonnes c = Inr t \<Longrightarrow> num_flights c = Inr n \<Longrightarrow>
   total_cost c = Inr k \<Longrightarrow> reentries_per_launch c = Inr r \<Longrightarrow>
   calc c = Inr \<lparr> res_KE_total = KE_total c,
           res_KE_max = KE_max c,
           res_heat_max = heat_max c,
           res_heat_to_tiles_fraction = heat_to_tiles_fraction c,
           res_fraction_absorbed = fraction_absorbed c,
           res_energy_to_steam = energy_to_steam c,
           res_m_water_kg = kg,
           res_m_water_tonnes = t,
           res_num_flights = n,
           res_total_cost = k,
           res_reentries_per_launch = r \<rparr>"
  by (simp add: calc_def and_then_def)

text \<open>A zero energy, and so a zero water mass, whatever the nonzero latent heat.\<close>

lemma m_water_tonnes_zero:
  "energy_to_steam c = 0 \<Longrightarrow> Lv c \<noteq> 0 \<Longrightarrow> m_water_tonnes c = Inr 0"
  using m_water_tonnes_step [OF m_water_kg_step, of c]
  by (simp add: float_div_zero)

subsection \<open>The values for the default constants\<close>

lemma KE_total_fixed:
  "m_vehicle c = 120000 \<Longrightarrow> v_orbital c = 7800 \<Longrightarrow> KE_total c = 3650400000000"
  by (simp add: KE_total_def float_literal_05 float_of_int_small float_mul_half_m_vehicle
      float_mul_KE_total)

lemma KE_total_default: "KE_total default_constants = 3650400000000"
  by (rule KE_total_fixed) (simp_all add: default_fields)

lemma KE_max_default: "KE_max default_constants = 1095120000000"
  by (simp only: KE_max_def default_fields KE_total_default float_mul_KE_max)

lemma heat_max_default: "heat_max default_constants = 10951200000"
  by (simp only: heat_max_def default_fields KE_max_default float_mul_heat_max)

lemma heat_to_tiles_fraction_fixed:
  "temp_fraction c = 3602879701896397 / 4503599627370496 \<Longrightarrow>
   heat_to_tiles_fraction c = 3689348814741911 / 9007199254740992"
  by (simp only: heat_to_tiles_fraction_def float_pow_tiles)

lemma heat_to_tiles_fraction_default:
  "heat_to_tiles_fraction default_constants = 3689348814741911 / 9007199254740992"
  by (rule heat_to_tiles_fraction_fixed) (simp add: default_fields)

lemma fraction_absorbed_fixed:
  "temp_fraction c = 3602879701896397 / 4503599627370496 \<Longrightarrow>
   fraction_absorbed c = 5317850439999081 / 9007199254740992"
  by (simp only: fraction_absorbed_def heat_to_tiles_fraction_fixed float_of_int_small
      float_sub_absorbed)

lemma fraction_absorbed_default:
  "fraction_absorbed default_constants = 5317850439999081 / 9007199254740992"
  by (rule fraction_absorbed_fixed) (simp add: default_fields)

lemma energy_to_steam_default: "energy_to_steam default_constants = 6779660906004479 / 1048576"
  by (simp only: energy_to_steam_def fraction_absorbed_default heat_max_default float_mul_steam)

lemma m_water_kg_default:
  "m_water_kg default_constants = Inr (786392667497185 / 274877906944)"
  using m_water_kg_step [of default_constants]
  by (simp add: default_fields energy_to_steam_default float_of_int_small float_div_kg)

lemma m_water_tonnes_default:
  "m_water_tonnes default_constants = Inr (1610532183034235 / 562949953421312)"
  by (simp only: m_water_tonnes_step [OF m_water_kg_default] float_div_tonnes)

lemma num_flights_default: "num_flights default_constants = Inr 1"
  using num_flights_step [OF m_water_tonnes_default]
  by (simp add: default_fields float_of_int_small float_div_flights ceiling_eq_iff)

lemma total_cost_default: "total_cost default_constants = Inr 500000"
  by (simp add: total_cost_step [OF num_flights_default] default_fields)

lemma reentries_per_launch_default: "reentries_per_launch default_constants = Inr 52"
  using reentries_per_launch_step [OF total_cost_default m_water_tonnes_default]
  by (simp add: default_fields float_of_int_small float_div_reentries floor_eq_iff)

lemma calc_default:
  "calc default_constants =
     Inr \<lparr> res_KE_total = 3650400000000,
           res_KE_max = 1095120000000,
           res_heat_max = 10951200000,
           res_heat_to_tiles_fraction = 3689348814741911 / 9007199254740992,
           res_fraction_absorbed = 5317850439999081 / 9007199254740992,
           res_energy_to_steam = 6779660906004479 / 1048576,
           res_m_water_kg = 786392667497185 / 274877906944,
           res_m_water_tonnes = 1610532183034235 / 562949953421312,
           res_num_flights = 1,
           res_total_cost = 500000,
           res_reentries_per_launch = 52 \<rparr>"
  by (simp only: calc_step [OF m_water_kg_default m_water_tonnes_default num_flights_default
      total_cost_default reentries_per_launch_default] KE_total_default KE_max_default
      heat_max_default heat_to_tiles_fraction_default fraction_absorbed_default
      energy_to_steam_default)

subsection \<open>Digits\<close>

lemma digit_char_is_digit: "d < 10 \<Longrightarrow> is_digit (digit_char d)"
  by (simp add: is_digit_def digit_char_def del: set_simps)

lemma is_digit_not_mark:
  "is_digit ch \<Longrightarrow> ch \<noteq> CHR ''-'' \<and> ch \<noteq> CHR '','' \<and> ch \<noteq> CHR ''.''"
  by (auto simp: is_digit_def)

lemma digits_of_nonempty: "digits_of n \<noteq> []"
  by (subst digits_of.simps) simp

lemma digits_of_all_digits: "list_all is_digit (digits_of n)"
proof (induction n rule: digits_of.induct)
  case (1 n)
  show ?case
  proof (cases "n < 10")
    case True
    then show ?thesis
      by (subst digits_of.simps) (simp add: digit_char_is_digit)
  next
    case False
    then show ?thesis
      using "1.IH" by (subst digits_of.simps) (simp add: digit_char_is_digit)
  qed
qed

lemma digits_of_is_digits: "is_digits (digits_of n)"
  by (simp add: is_digits_def digits_of_nonempty digits_of_all_digits)

lemma digits_of_small: "n < 10 \<Longrightarrow> digits_of n = [digit_char n]"
  by (subst digits_of.simps) simp

lemma length_digits_of_le: "0 < k \<Longrightarrow> n < 10 ^ k \<Longrightarrow> length (digits_of n) \<le> k"
proof (induction n arbitrary: k rule: digits_of.induct)
  case (1 n)
  show ?case
  proof (cases "n < 10")
    case True
    then show ?thesis
      using "1.prems" by (simp add: digits_of_small)
  next
    case False
    then obtain j where k: "k = Suc j"
      using "1.prems" by (cases k) simp_all
    have j: "0 < j"
      using False "1.prems" k by (cases j) simp_all
    have "n div 10 < 10 ^ j"
      using "1.prems" k by (simp add: less_mult_imp_div_less mult.commute)
    then have "length (digits_of (n div 10)) \<le> j"
      using "1.IH" False j by simp
    then show ?thesis
      using False k by (subst digits_of.simps) simp
  qed
qed

subsection \<open>Signs and padding\<close>

lemma unsigned_minus: "unsigned (CHR ''-'' # s) = s"
  by (simp add: unsigned_def)

lemma unsigned_digit: "is_digit ch \<Longrightarrow> unsigned (ch # s) = ch # s"
  by (simp add: unsigned_def is_digit_not_mark)

lemma unsigned_digits_of: "unsigned (digits_of n @ s) = digits_of n @ s"
proof (cases "digits_of n")
  case Nil
  then show ?thesis using digits_of_nonempty by simp
next
  case (Cons ch r)
  then have "is_digit ch"
    using digits_of_all_digits [of n] by simp
  then show ?thesis
    using Cons by (simp add: unsigned_digit)
qed

lemma unsigned_signed_digits:
  "unsigned ((if b then ''-'' else '''') @ digits_of n @ s) = digits_of n @ s"
  using unsigned_digits_of [of n s] by (simp add: unsigned_minus)

lemma length_zero_pad: "length s \<le> n \<Longrightarrow> length (zero_pad n s) = n"
  by (simp add: zero_pad_def)

lemma length_zero_pad_ge: "n \<le> length (zero_pad n s)"
  by (simp add: zero_pad_def)

lemma is_digit_zero: "is_digit CHR ''0''"
  by (simp add: is_digit_def)

lemma zero_pad_all_digits: "list_all is_digit s \<Longrightarrow> list_all is_digit (zero_pad n s)"
  by (auto simp: zero_pad_def list_all_iff is_digit_zero)

lemma zero_pad_two:
  "k < 100 \<Longrightarrow> \<exists>d1 d2. zero_pad 2 (digits_of k) = [d1, d2] \<and> is_digit d1 \<and> is_digit d2"
proof -
  assume "k < 100"
  then have "length (digits_of k) \<le> 2"
    using length_digits_of_le [of 2 k] by simp
  then have len: "length (zero_pad 2 (digits_of k)) = 2"
    by (rule length_zero_pad)
  have all: "list_all is_digit (zero_pad 2 (digits_of k))"
    by (rule zero_pad_all_digits [OF digits_of_all_digits])
  obtain d1 d2 where "zero_pad 2 (digits_of k) = [d1, d2]"
    using len by (auto simp: length_Suc_conv numeral_2_eq_2)
  then show ?thesis using all by auto
qed

subsection \<open>Plain integers and fixed notation\<close>

lemma str_int_is_plain_int: "is_plain_int (str_int i)"
  by (simp add: is_plain_int_def str_int_def unsigned_minus digits_of_is_digits
      unsigned_digits_of [of _ "[]", simplified])

lemma format_f_0: "format_f 0 x = (if x < 0 then ''-'' else '''') @ digits_of (nat (round_half_even \<bar>x\<bar>))"
  by (simp add: format_f_def)

lemma format_f_0_is_plain_int: "is_plain_int (format_f 0 x)"
  using unsigned_signed_digits [of "x < 0" "nat (round_half_even \<bar>x\<bar>)" "[]"]
  by (simp add: format_f_0 is_plain_int_def digits_of_is_digits)

lemma format_f_2_is_fixed2: "is_fixed2 (format_f 2 x)"
proof -
  define m where "m = nat (round_half_even (\<bar>x\<bar> * 10 ^ 2))"
  obtain d1 d2 where pad: "zero_pad 2 (digits_of (m mod 100)) = [d1, d2]"
      and d: "is_digit d1" "is_digit d2"
    using zero_pad_two [of "m mod 100"] by auto
  have f: "format_f 2 x = (if x < 0 then ''-'' else '''') @ digits_of (m div 100) @ [CHR ''.'', d1, d2]"
    using pad by (simp add: format_f_def m_def Let_def)
  have "unsigned (format_f 2 x) = digits_of (m div 100) @ [CHR ''.'', d1, d2]"
    unfolding f by (rule unsigned_signed_digits)
  then show ?thesis
    using d digits_of_is_digits [of "m div 100"]
    by (simp add: is_fixed2_def is_digits_def)
qed

subsection \<open>Powers of ten and the decimal exponent\<close>

lemma pow10_pos: "0 < (10::rat) powi e"
  by simp

lemma pow10_Suc: "(10::rat) powi (e + 1) = 10 * 10 powi e"
  by (simp add: power_int_add)

lemma exponent10_bounds:
  "0 < x \<Longrightarrow> 10 powi (exponent 10 x) \<le> x \<and> x < 10 powi (exponent 10 x + 1)"
  using exponent_bounds [of 10 x] by simp

lemma exponent10_unique:
  "0 < x \<Longrightarrow> 10 powi e \<le> x \<Longrightarrow> x < 10 powi (e + 1) \<Longrightarrow> exponent 10 x = e"
  using exponent_unique [of 10 x e] by simp

subsection \<open>Scientific notation\<close>

lemma mantissa_le:
  "0 \<le> a \<Longrightarrow> e0 = (if a = 0 then 0 else exponent 10 a) \<Longrightarrow>
   round_half_even (a / 10 powi e0 * 10 ^ 2) \<le> 1000"
proof -
  assume a: "0 \<le> a" and e0: "e0 = (if a = 0 then 0 else exponent 10 a)"
  define y where "y = a / 10 powi e0"
  have "a < 10 * 10 powi e0"
  proof (cases "a = 0")
    case True
    then show ?thesis using pow10_pos [of e0] by simp
  next
    case False
    then have "0 < a" using a by simp
    then show ?thesis
      using exponent10_bounds [of a] False e0 by (simp add: pow10_Suc)
  qed
  then have "y < 10"
    using pow10_pos [of e0] by (simp add: y_def field_simps)
  then have "y * 10 ^ 2 \<le> of_int 1000"
    by simp
  then show ?thesis
    unfolding y_def by (rule round_half_even_le)
qed

lemma mantissa_ge:
  "0 < a \<Longrightarrow> 100 \<le> round_half_even (a / 10 powi (exponent 10 a) * 10 ^ 2)"
proof -
  assume a: "0 < a"
  define y where "y = a / 10 powi (exponent 10 a)"
  have "10 powi (exponent 10 a) \<le> a"
    using exponent10_bounds [OF a] by simp
  then have "1 \<le> y"
    using pow10_pos [of "exponent 10 a"] by (simp add: y_def field_simps)
  then have "of_int 100 \<le> y * 10 ^ 2"
    by simp
  then show ?thesis
    unfolding y_def by (rule round_half_even_ge)
qed

lemma format_e_2_is_sci2: "is_sci2 (format_e 2 x)"
proof -
  define a where "a = \<bar>x\<bar>"
  define e0 where "e0 = (if a = 0 then 0 else exponent 10 a)"
  define m0 where "m0 = nat (round_half_even (a / 10 powi e0 * 10 ^ 2))"
  define m where "m = (if m0 = 10 ^ (2 + 1) then 10 ^ 2 else m0)"
  define e where "e = (if m0 = 10 ^ (2 + 1) then e0 + 1 else e0)"
  define ex where "ex = zero_pad 2 (digits_of (nat \<bar>e\<bar>))"
  have "round_half_even (a / 10 powi e0 * 10 ^ 2) \<le> 1000"
    by (rule mantissa_le) (simp_all add: a_def e0_def)
  then have "m0 \<le> 1000"
    by (simp add: m0_def)
  then have m: "m < 1000"
    by (simp add: m_def)
  then have "m div 100 < 10"
    by simp
  then have lead: "digits_of (m div 100) = [digit_char (m div 100)]"
      and d0: "is_digit (digit_char (m div 100))"
    by (simp_all add: digits_of_small digit_char_is_digit)
  obtain d1 d2 where pad: "zero_pad 2 (digits_of (m mod 100)) = [d1, d2]"
      and d: "is_digit d1" "is_digit d2"
    using zero_pad_two [of "m mod 100"] by auto
  have ex: "2 \<le> length ex" "list_all is_digit ex"
    by (simp_all add: ex_def length_zero_pad_ge zero_pad_all_digits digits_of_all_digits)
  have f0: "format_e 2 x =
      (if x < 0 then ''-'' else '''')
         @ digits_of (m div 10 ^ 2)
         @ (if (2::nat) = 0 then '''' else CHR ''.'' # zero_pad 2 (digits_of (m mod 10 ^ 2)))
         @ ''e'' @ (if e < 0 then ''-'' else ''+'') @ ex"
    unfolding format_e_def Let_def a_def e0_def m0_def m_def e_def ex_def ..
  have f: "format_e 2 x =
      (if x < 0 then ''-'' else '''') @ digits_of (m div 100)
        @ ([CHR ''.'', d1, d2, CHR ''e'', if e < 0 then CHR ''-'' else CHR ''+''] @ ex)"
    unfolding f0 using pad by simp
  have "unsigned (format_e 2 x) =
      digits_of (m div 100) @ ([CHR ''.'', d1, d2, CHR ''e'', if e < 0 then CHR ''-'' else CHR ''+''] @ ex)"
    unfolding f by (rule unsigned_signed_digits)
  then show ?thesis
    using d d0 ex lead by (simp add: is_sci2_def)
qed

subsection \<open>Thousands separators\<close>

lemma group3_keeps:
  "ds \<noteq> [] \<Longrightarrow> list_all is_digit ds \<Longrightarrow>
   is_grouped_rev (group3 ds) \<and> group3 ds \<noteq> [] \<and> is_digit (last (group3 ds))
   \<and> filter (\<lambda>ch. ch \<noteq> CHR '','') (group3 ds) = ds"
proof (induction ds rule: group3.induct)
  case (1 a b c d rest)
  then show ?case
    by (simp add: is_digit_not_mark)
qed (simp_all add: is_digits_def is_digit_not_mark)

lemma unsigned_signed:
  "s \<noteq> [] \<Longrightarrow> is_digit (hd s) \<Longrightarrow> unsigned ((if b then ''-'' else '''') @ s) = s"
  by (cases s) (simp_all add: unsigned_minus unsigned_digit)

lemma format_comma_is_grouped_int: "is_grouped_int (format_comma i)"
proof -
  define ds where "ds = rev (digits_of (nat \<bar>i\<bar>))"
  have ds: "ds \<noteq> []" "list_all is_digit ds"
    using digits_of_all_digits [of "nat \<bar>i\<bar>"]
    by (simp_all add: ds_def digits_of_nonempty list_all_iff)
  have g: "is_grouped_rev (group3 ds)" "group3 ds \<noteq> []" "is_digit (last (group3 ds))"
    using group3_keeps [OF ds] by simp_all
  have "unsigned ((if i < 0 then ''-'' else '''') @ rev (group3 ds)) = rev (group3 ds)"
    by (rule unsigned_signed) (simp_all add: g hd_rev)
  then show ?thesis
    using g by (simp add: is_grouped_int_def format_comma_def ds_def [symmetric])
qed

lemma str_int_abs: "str_int i = (if i < 0 then ''-'' else '''') @ digits_of (nat \<bar>i\<bar>)"
  by (simp add: str_int_def abs_if)

lemma format_comma_digits:
  "filter (\<lambda>ch. ch \<noteq> CHR '','') (format_comma i) = str_int i"
proof -
  define ds where "ds = rev (digits_of (nat \<bar>i\<bar>))"
  have ds: "ds \<noteq> []" "list_all is_digit ds"
    using digits_of_all_digits [of "nat \<bar>i\<bar>"]
    by (simp_all add: ds_def digits_of_nonempty list_all_iff)
  have "filter (\<lambda>ch. ch \<noteq> CHR '','') (group3 ds) = ds"
    using group3_keeps [OF ds] by simp
  then have "filter (\<lambda>ch. ch \<noteq> CHR '','') (rev (group3 ds)) = digits_of (nat \<bar>i\<bar>)"
    by (simp add: rev_filter [symmetric] ds_def)
  then show ?thesis
    unfolding format_comma_def str_int_abs ds_def [symmetric] by simp
qed

subsection \<open>Evaluating the conversions\<close>

lemma format_e_2_eval:
  "0 < x \<Longrightarrow> 10 powi e \<le> x \<Longrightarrow> x < 10 powi (e + 1) \<Longrightarrow>
   \<bar>of_int (int m) - x / 10 powi e * 10 ^ 2\<bar> < 1 / 2 \<Longrightarrow> m < 1000 \<Longrightarrow>
   format_e 2 x =
     digits_of (m div 100) @ CHR ''.'' # zero_pad 2 (digits_of (m mod 100))
       @ ''e'' @ (if e < 0 then ''-'' else ''+'') @ zero_pad 2 (digits_of (nat \<bar>e\<bar>))"
proof -
  assume x: "0 < x" and lo: "10 powi e \<le> x" and hi: "x < 10 powi (e + 1)"
    and r: "\<bar>of_int (int m) - x / 10 powi e * 10 ^ 2\<bar> < 1 / 2" and m: "m < 1000"
  have e: "exponent 10 x = e"
    using x lo hi by (rule exponent10_unique)
  have "round_half_even (x / 10 powi e * 10 ^ 2) = int m"
    using r by (rule round_half_even_unique)
  then have m0: "nat (round_half_even (x / 10 powi e * 10 ^ 2)) = m"
    by simp
  have ax: "\<bar>x\<bar> = x" and nz: "(x = 0) = False"
    using x by simp_all
  have "format_e 2 x =
      (if x < 0 then ''-'' else '''')
         @ digits_of ((if m = 10 ^ (2 + 1) then 10 ^ 2 else m) div 10 ^ 2)
         @ (if (2::nat) = 0 then ''''
            else CHR ''.'' # zero_pad 2
              (digits_of ((if m = 10 ^ (2 + 1) then 10 ^ 2 else m) mod 10 ^ 2)))
         @ ''e'' @ (if (if m = 10 ^ (2 + 1) then e + 1 else e) < 0 then ''-'' else ''+'')
         @ zero_pad 2 (digits_of (nat \<bar>if m = 10 ^ (2 + 1) then e + 1 else e\<bar>))"
    unfolding format_e_def Let_def ax by (simp only: nz if_False e m0)
  then show ?thesis
    using x m by simp
qed

lemma format_f_eval:
  "0 \<le> x \<Longrightarrow> \<bar>of_int (int m) - x * 10 ^ n\<bar> < 1 / 2 \<Longrightarrow>
   format_f n x =
     digits_of (m div 10 ^ n)
       @ (if n = 0 then '''' else CHR ''.'' # zero_pad n (digits_of (m mod 10 ^ n)))"
proof -
  assume x: "0 \<le> x" and r: "\<bar>of_int (int m) - x * 10 ^ n\<bar> < 1 / 2"
  have "round_half_even (x * 10 ^ n) = int m"
    using r by (rule round_half_even_unique)
  then have "nat (round_half_even (\<bar>x\<bar> * 10 ^ n)) = m"
    using x by simp
  then show ?thesis
    using x by (simp add: format_f_def Let_def)
qed

lemma decimals_step:
  "0 < fuel \<Longrightarrow>
   decimals fuel x = (if x = of_int \<lfloor>x\<rfloor> then 0 else Suc (decimals (fuel - 1) (x * 10)))"
  by (cases fuel) simp_all

lemmas digit_simps = digits_of.simps digit_char_def zero_pad_def

subsection \<open>The printed values for the default constants\<close>

lemma format_e_KE_total_default: "format_e 2 (3650400000000) = ''3.65e+12''"
  by (subst format_e_2_eval [where e = 12 and m = 365]) (simp_all add: digit_simps)

lemma format_e_KE_max_default: "format_e 2 (1095120000000) = ''1.10e+12''"
  by (subst format_e_2_eval [where e = 12 and m = 110]) (simp_all add: digit_simps)

lemma format_e_heat_max_default: "format_e 2 (10951200000) = ''1.10e+10''"
  by (subst format_e_2_eval [where e = 10 and m = 110]) (simp_all add: digit_simps)

lemma format_e_energy_to_steam_default: "format_e 2 (6779660906004479 / 1048576) = ''6.47e+09''"
  by (subst format_e_2_eval [where e = 9 and m = 647]) (simp_all add: digit_simps)

lemma format_f_fraction_absorbed_default: "format_f 2 (5317850439999081 / 9007199254740992) = ''0.59''"
  by (subst format_f_eval [where m = 59]) (simp_all add: digit_simps)

lemma format_f_m_water_tonnes_default: "format_f 0 (1610532183034235 / 562949953421312) = ''3''"
  by (subst format_f_eval [where m = 3]) (simp_all add: digit_simps)

lemma str_int_flights_default: "str_int 1 = ''1''" "str_int 52 = ''52''"
  by (simp_all add: str_int_def digit_simps)

lemma format_comma_total_cost_default: "format_comma 500000 = ''500,000''"
  by (simp add: format_comma_def digit_simps)

lemma shortest_decimal_step:
  "0 < fuel \<Longrightarrow>
   shortest_decimal fuel n x =
     (case filter (reads_back x) (decimal_candidates n x) of
        ks # _ \<Rightarrow> ks
      | [] \<Rightarrow> shortest_decimal (fuel - 1) (Suc n) x)"
  by (cases fuel) (simp_all split: list.split)

text \<open>A positive double that one decimal digit \<open>k\<close> with exponent \<open>s\<close> reads back as.\<close>

lemma float_repr_one_digit:
  "0 < x \<Longrightarrow> 10 powi s \<le> x \<Longrightarrow> x < 10 powi (s + 1) \<Longrightarrow>
   \<bar>of_int k - x / 10 powi s\<bar> < 1 / 2 \<Longrightarrow> 1 \<le> k \<Longrightarrow> k \<le> 9 \<Longrightarrow>
   round_to_double (of_int k * 10 powi s) = x \<Longrightarrow> - 4 \<le> s \<Longrightarrow> s \<le> 15 \<Longrightarrow>
   float_repr x =
     format_f (max 1 (decimals 25 (of_int k * 10 powi s))) (of_int k * 10 powi s)"
proof -
  assume x: "0 < x" and lo: "10 powi s \<le> x" and hi: "x < 10 powi (s + 1)"
    and near: "\<bar>of_int k - x / 10 powi s\<bar> < 1 / 2" and k: "1 \<le> k" "k \<le> 9"
    and rt: "round_to_double (of_int k * 10 powi s) = x" and s: "- 4 \<le> s" "s \<le> 15"
  define d :: rat where "d = of_int k * 10 powi s"
  have e: "exponent 10 x = s"
    using x lo hi by (rule exponent10_unique)
  have r: "round_half_even (x / 10 powi s) = k"
    using near by (rule round_half_even_unique)
  have rb: "reads_back x (k, s)"
    using rt by (simp add: reads_back_def)
  have "\<exists>k'. decimal_candidates 1 x = [(k, s), (k', s)]"
    using r round_half_even_cases [of "x / 10 powi s"]
    by (auto simp: decimal_candidates_def Let_def e)
  then obtain k' where "decimal_candidates 1 x = [(k, s), (k', s)]"
    by blast
  then have "\<exists>rest. filter (reads_back x) (decimal_candidates 1 x) = (k, s) # rest"
    using rb by simp
  then have sd: "shortest_decimal 16 1 x = (k, s)"
    by (auto simp: shortest_decimal_step)
  have dpos: "0 < d"
    using k by (simp add: d_def)
  have "10 powi s \<le> d"
    using k by (simp add: d_def)
  moreover have "d < 10 powi (s + 1)"
  proof -
    have "(of_int k :: rat) < 10" using k by simp
    then show ?thesis
      by (simp add: d_def pow10_Suc)
  qed
  ultimately have ed: "exponent 10 d = s"
    using dpos by (intro exponent10_unique)
  have ax: "\<bar>x\<bar> = x" and nz: "(x = 0) = False" and nn: "(x < 0) = False"
    using x by simp_all
  show ?thesis
    unfolding float_repr_def ax nz nn if_False sd prod.case Let_def d_def [symmetric] ed
    using s by simp
qed

lemma float_repr_percent_default: "float_repr 30 = ''30.0''"
proof -
  have "round_to_double (of_int 30) = of_int 30"
    by (rule round_to_double_int_pos) simp_all
  then have r: "round_to_double 30 = 30"
    by simp
  have "float_repr 30 = format_f (max 1 (decimals 25 (of_int 3 * 10 powi 1))) (of_int 3 * 10 powi 1)"
    by (rule float_repr_one_digit) (simp_all add: r)
  also have "\<dots> = format_f 1 30"
    by (simp add: decimals_step)
  also have "\<dots> = ''30.0''"
    by (subst format_f_eval [where m = 300]) (simp_all add: digit_simps)
  finally show ?thesis .
qed

lemma float_repr_heat_fraction_default:
  "float_repr (5764607523034235 / 576460752303423488) = ''0.01''"
proof -
  have r: "round_to_double (1 / 100) = 5764607523034235 / 576460752303423488"
    using float_literal_001 by (simp only: float_literal_def)
  have a: "(1 / 100 :: rat) \<noteq> of_int \<lfloor>1 / 100 :: rat\<rfloor>"
    by (simp add: floor_eq_iff [THEN iffD2, of 0])
  have b: "(1 / 10 :: rat) \<noteq> of_int \<lfloor>1 / 10 :: rat\<rfloor>"
    by (simp add: floor_eq_iff [THEN iffD2, of 0])
  have n: "max 1 (decimals 25 (1 / 100)) = 2"
    using a b by (simp add: decimals_step)
  have "float_repr (5764607523034235 / 576460752303423488) =
      format_f (max 1 (decimals 25 (of_int 1 * 10 powi (- 2)))) (of_int 1 * 10 powi (- 2))"
    by (rule float_repr_one_digit) (simp_all add: r)
  also have "\<dots> = format_f (max 1 (decimals 25 (1 / 100))) (1 / 100)"
    by simp
  also have "\<dots> = format_f 2 (1 / 100)"
    by (simp only: n)
  also have "\<dots> = ''0.01''"
    by (subst format_f_eval [where m = 1]) (simp_all add: digit_simps)
  finally show ?thesis .
qed

subsection \<open>The run of the whole script\<close>

lemma program_raise: "calc c = Inl e \<Longrightarrow> program c = Inl e"
  by (simp add: program_def and_then_def)

lemma program_step:
  "calc c = Inr r \<Longrightarrow>
   program c = Inr
       [ ''Total kinetic energy: '' @ format_e 2 (res_KE_total r) @ '' J'',
         ''KE during max heating (''
           @ float_repr (float_mul (fraction_max_heating c) (float_of_int 100)) @ ''%): ''
           @ format_e 2 (res_KE_max r) @ '' J'',
         ''Heat during max heating (heat_fraction '' @ float_repr (heat_fraction c) @ ''): ''
           @ format_e 2 (res_heat_max r) @ '' J'',
         ''Fraction absorbed by water: '' @ format_f 2 (res_fraction_absorbed r),
         ''Energy to steam: '' @ format_e 2 (res_energy_to_steam r) @ '' J'',
         ''Required water mass: '' @ format_f 0 (res_m_water_tonnes r) @ '' metric tonnes'',
         ''Number of flights needed: '' @ str_int (res_num_flights r),
         ''Total cost to deliver water to orbit: $'' @ format_comma (res_total_cost r) @ '' USD'',
         ''Reentries supplied per launch (including freighter): ''
           @ str_int (res_reentries_per_launch r) ]"
  by (simp only: program_def and_then_Inr)

lemma program_calc:
  "program c = Inr ls \<Longrightarrow> \<exists>r. calc c = Inr r"
  by (cases "calc c") (simp_all add: program_def and_then_def)

text \<open>
  For the default constants the run prints the nine lines that the script prints when it
  is run as it stands.
\<close>

lemma program_default:
  "program default_constants =
     Inr [ ''Total kinetic energy: 3.65e+12 J'',
           ''KE during max heating (30.0%): 1.10e+12 J'',
           ''Heat during max heating (heat_fraction 0.01): 1.10e+10 J'',
           ''Fraction absorbed by water: 0.59'',
           ''Energy to steam: 6.47e+09 J'',
           ''Required water mass: 3 metric tonnes'',
           ''Number of flights needed: 1'',
           ''Total cost to deliver water to orbit: $500,000 USD'',
           ''Reentries supplied per launch (including freighter): 52'' ]"
  unfolding program_step [OF calc_default]
  by (simp add: default_fields float_of_int_small float_mul_percent
      format_e_KE_total_default format_e_KE_max_default format_e_heat_max_default
      format_e_energy_to_steam_default format_f_fraction_absorbed_default
      format_f_m_water_tonnes_default str_int_flights_default
      format_comma_total_cost_default float_repr_percent_default
      float_repr_heat_fraction_default)

subsection \<open>The values when one constant is changed\<close>









lemma with_temp_fraction_fields:
  "temp_fraction (with_temp_fraction a) = a"
  "heat_max (with_temp_fraction a) = heat_max default_constants"
  "Lv (with_temp_fraction a) = 2260000"
  "payload_per_flight (with_temp_fraction a) = 150"
  "propellant_cost_per_flight (with_temp_fraction a) = 500000"
  by (simp_all add: with_temp_fraction_def heat_max_def KE_max_def KE_total_def default_fields)

lemma heat_to_tiles_fraction_one: "heat_to_tiles_fraction (with_temp_fraction 1) = 1"
  using float_of_int_exact [of 1]
  by (simp add: heat_to_tiles_fraction_def float_pow_def float_of_int_def
      with_temp_fraction_fields)

lemma fraction_absorbed_one: "fraction_absorbed (with_temp_fraction 1) = 0"
  by (simp add: fraction_absorbed_def heat_to_tiles_fraction_one float_of_int_small
      float_sub_def round_to_double_zero)

lemma m_water_tonnes_one: "m_water_tonnes (with_temp_fraction 1) = Inr 0"
  by (rule m_water_tonnes_zero)
     (simp_all add: energy_to_steam_def fraction_absorbed_one float_mul_zero
       with_temp_fraction_fields)

subsection \<open>Ceiling and floor as least and greatest integers\<close>



subsection \<open>Monotonicity of the operations on floats\<close>



subsection \<open>Two adjacent doubles\<close>





subsection \<open>The script against the formula chain\<close>





subsection \<open>Division by a zero water mass\<close>




subsection \<open>Ceiling and floor of the flight counts\<close>



lemma float_literal_near_sixth: "float_literal (4166666666666667 / 250000000000000) = 4691249611844267 / 281474976710656"
  unfolding float_literal_def
  by (subst round_to_double_eval [where e = 4 and m = 4691249611844267]) simp_all

lemma float_div_near_sixth: "float_div 150 (4691249611844267 / 281474976710656) = 9"
  unfolding float_div_def
  by (subst round_to_double_eval [where e = 3 and m = 5066549580791808]) simp_all

text \<open>
  The quotient of the script is the rounded one, and it can reach an integer that the
  exact quotient stays below: for \<^verbatim>\<open>m_water_tonnes = 16.666666666666668\<close> the
  script computes \<^verbatim>\<open>150 / m_water_tonnes = 9.0\<close>, while 150 divided by that double
  is a little less than 9.
\<close>

lemma rounded_quotient_example:
  "\<lfloor>float_div 150 (float_literal 16.666666666666668)\<rfloor> = 9 \<and>
   \<lfloor>150 / float_literal 16.666666666666668\<rfloor> = 8"
  by (simp add: float_literal_near_sixth float_div_near_sixth floor_eq_iff)

subsection \<open>The literal default constants\<close>

text \<open>
  Claim C4. For the default constants, \<^verbatim>\<open>KE_total\<close> is exactly
  \<open>0.5 * 120000 * 7800\<^sup>2 = 3.6504 * 10\<^sup>1\<^sup>2\<close>; \<^verbatim>\<open>heat_to_tiles_fraction\<close> is the
  double \<^verbatim>\<open>0.4096000000000001\<close>, within \<open>10\<^sup>-\<^sup>1\<^sup>5\<close> of \<open>0.8\<^sup>4 = 0.4096\<close>; and
  \<^verbatim>\<open>fraction_absorbed\<close> is the double \<^verbatim>\<open>0.5903999999999999\<close>, within
  \<open>10\<^sup>-\<^sup>1\<^sup>5\<close> of \<open>0.5904\<close>.
\<close>

theorem default_energy_and_fractions:
  "KE_total default_constants = 0.5 * 120000 * 7800 ^ 2 \<and>
   KE_total default_constants = 36504 * 10 ^ 8 \<and>
   heat_to_tiles_fraction default_constants = 3689348814741911 / 9007199254740992 \<and>
   \<bar>heat_to_tiles_fraction default_constants - 0.8 ^ 4\<bar> < 1 / 10 ^ 15 \<and>
   \<bar>heat_to_tiles_fraction default_constants - 0.4096\<bar> < 1 / 10 ^ 15 \<and>
   fraction_absorbed default_constants = 5317850439999081 / 9007199254740992 \<and>
   \<bar>fraction_absorbed default_constants - 0.5904\<bar> < 1 / 10 ^ 15"
  by (simp add: KE_total_default heat_to_tiles_fraction_default fraction_absorbed_default
      power_divide)

subsection \<open>Monotonicity in the heating fraction\<close>




subsection \<open>The boundary \<open>temp_fraction = 1\<close>\<close>

text \<open>
  Claim C6, as amended. With \<^verbatim>\<open>temp_fraction = 1.0\<close> and the other constants at
  their defaults, \<^verbatim>\<open>fraction_absorbed\<close> is 0 and \<^verbatim>\<open>m_water_tonnes\<close> is 0;
  lines 58 and 61 assign 0 to \<^verbatim>\<open>num_flights\<close> and \<^verbatim>\<open>total_cost\<close>, and the
  division of line 64 raises \<^verbatim>\<open>ZeroDivisionError\<close>, which nothing catches: the run
  ends there and prints nothing.
\<close>

theorem temp_fraction_one_boundary:
  "temp_fraction (with_temp_fraction 1) = 1 \<and>
   fraction_absorbed (with_temp_fraction 1) = 0 \<and>
   m_water_tonnes (with_temp_fraction 1) = Inr 0 \<and>
   num_flights (with_temp_fraction 1) = Inr 0 \<and>
   total_cost (with_temp_fraction 1) = Inr 0 \<and>
   reentries_per_launch (with_temp_fraction 1) = Inl ZeroDivisionError \<and>
   calc (with_temp_fraction 1) = Inl ZeroDivisionError \<and>
   program (with_temp_fraction 1) = Inl ZeroDivisionError"
proof -
  have n: "num_flights (with_temp_fraction 1) = Inr 0"
    using num_flights_step [OF m_water_tonnes_one]
    by (simp add: with_temp_fraction_fields float_div_zero)
  have k: "total_cost (with_temp_fraction 1) = Inr 0"
    using total_cost_step [OF n] by simp
  have r: "reentries_per_launch (with_temp_fraction 1) = Inl ZeroDivisionError"
    using m_water_tonnes_one by (rule reentries_per_launch_raise)
  show ?thesis
    using n k r
    by (simp add: with_temp_fraction_fields fraction_absorbed_one m_water_tonnes_one calc_raise
        program_raise)
qed

text \<open>
  Claim C6 as stated says that the division by zero is handled. The run for
  \<^verbatim>\<open>temp_fraction = 1.0\<close> has no results: it ends with the exception.
\<close>

theorem temp_fraction_one_counterexample: "calc (with_temp_fraction 1) = Inl ZeroDivisionError"
  by (rule calc_raise [OF reentries_per_launch_raise [OF m_water_tonnes_one]])

subsection \<open>Determinism\<close>



subsection \<open>The nine printed lines\<close>

text \<open>
  Claim C8. A run that reaches the print statements prints exactly nine lines, one for
  each of \<^verbatim>\<open>KE_total\<close>, \<^verbatim>\<open>KE_max\<close>, \<^verbatim>\<open>heat_max\<close>,
  \<^verbatim>\<open>fraction_absorbed\<close>, \<^verbatim>\<open>energy_to_steam\<close>, \<^verbatim>\<open>m_water_tonnes\<close>,
  \<^verbatim>\<open>num_flights\<close>, \<^verbatim>\<open>total_cost\<close> and \<^verbatim>\<open>reentries_per_launch\<close>, in this
  order. The four energies are in scientific notation with two decimal places, the
  fraction is in fixed notation with two decimal places, the water mass is the nearest
  integer (ties to even) in plain digits, the two flight counts are plain integers, and the
  cost is the integer with a comma before every group of three digits, after a dollar sign.
\<close>

theorem nine_formatted_lines:
  "program c = Inr ls \<Longrightarrow>
   \<exists>r. calc c = Inr r \<and> length ls = 9 \<and>
     ls =
       [ ''Total kinetic energy: '' @ format_e 2 (res_KE_total r) @ '' J'',
         ''KE during max heating (''
           @ float_repr (float_mul (fraction_max_heating c) (float_of_int 100)) @ ''%): ''
           @ format_e 2 (res_KE_max r) @ '' J'',
         ''Heat during max heating (heat_fraction '' @ float_repr (heat_fraction c) @ ''): ''
           @ format_e 2 (res_heat_max r) @ '' J'',
         ''Fraction absorbed by water: '' @ format_f 2 (res_fraction_absorbed r),
         ''Energy to steam: '' @ format_e 2 (res_energy_to_steam r) @ '' J'',
         ''Required water mass: '' @ format_f 0 (res_m_water_tonnes r) @ '' metric tonnes'',
         ''Number of flights needed: '' @ str_int (res_num_flights r),
         ''Total cost to deliver water to orbit: $'' @ format_comma (res_total_cost r) @ '' USD'',
         ''Reentries supplied per launch (including freighter): ''
           @ str_int (res_reentries_per_launch r) ] \<and>
     is_sci2 (format_e 2 (res_KE_total r)) \<and>
     is_sci2 (format_e 2 (res_KE_max r)) \<and>
     is_sci2 (format_e 2 (res_heat_max r)) \<and>
     is_fixed2 (format_f 2 (res_fraction_absorbed r)) \<and>
     is_sci2 (format_e 2 (res_energy_to_steam r)) \<and>
     is_plain_int (format_f 0 (res_m_water_tonnes r)) \<and>
     format_f 0 (res_m_water_tonnes r) =
       (if res_m_water_tonnes r < 0 then ''-'' else '''')
         @ digits_of (nat (round_half_even \<bar>res_m_water_tonnes r\<bar>)) \<and>
     \<bar>of_int (round_half_even \<bar>res_m_water_tonnes r\<bar>) - \<bar>res_m_water_tonnes r\<bar>\<bar> \<le> 1 / 2 \<and>
     is_plain_int (str_int (res_num_flights r)) \<and>
     is_grouped_int (format_comma (res_total_cost r)) \<and>
     filter (\<lambda>ch. ch \<noteq> CHR '','') (format_comma (res_total_cost r)) = str_int (res_total_cost r) \<and>
     is_plain_int (str_int (res_reentries_per_launch r))"
proof -
  assume p: "program c = Inr ls"
  then obtain r where r: "calc c = Inr r"
    using program_calc by blast
  have ls: "ls =
       [ ''Total kinetic energy: '' @ format_e 2 (res_KE_total r) @ '' J'',
         ''KE during max heating (''
           @ float_repr (float_mul (fraction_max_heating c) (float_of_int 100)) @ ''%): ''
           @ format_e 2 (res_KE_max r) @ '' J'',
         ''Heat during max heating (heat_fraction '' @ float_repr (heat_fraction c) @ ''): ''
           @ format_e 2 (res_heat_max r) @ '' J'',
         ''Fraction absorbed by water: '' @ format_f 2 (res_fraction_absorbed r),
         ''Energy to steam: '' @ format_e 2 (res_energy_to_steam r) @ '' J'',
         ''Required water mass: '' @ format_f 0 (res_m_water_tonnes r) @ '' metric tonnes'',
         ''Number of flights needed: '' @ str_int (res_num_flights r),
         ''Total cost to deliver water to orbit: $'' @ format_comma (res_total_cost r) @ '' USD'',
         ''Reentries supplied per launch (including freighter): ''
           @ str_int (res_reentries_per_launch r) ]"
    using p unfolding program_step [OF r] by simp
  have len: "length ls = 9"
    unfolding ls by simp
  show ?thesis
    using r ls len format_e_2_is_sci2 format_f_2_is_fixed2 format_f_0_is_plain_int format_f_0
      round_half_even_nearest str_int_is_plain_int format_comma_is_grouped_int
      format_comma_digits
    by blast
qed

text \<open>
  The default constants reach the print statements, and the nine lines are those of the
  script as it stands.
\<close>

theorem nine_formatted_lines_witness:
  "program default_constants =
     Inr [ ''Total kinetic energy: 3.65e+12 J'',
           ''KE during max heating (30.0%): 1.10e+12 J'',
           ''Heat during max heating (heat_fraction 0.01): 1.10e+10 J'',
           ''Fraction absorbed by water: 0.59'',
           ''Energy to steam: 6.47e+09 J'',
           ''Required water mass: 3 metric tonnes'',
           ''Number of flights needed: 1'',
           ''Total cost to deliver water to orbit: $500,000 USD'',
           ''Reentries supplied per launch (including freighter): 52'' ] \<and>
   (\<exists>r. calc default_constants = Inr r \<and>
     is_sci2 (format_e 2 (res_KE_total r)) \<and>
     is_sci2 (format_e 2 (res_KE_max r)) \<and>
     is_sci2 (format_e 2 (res_heat_max r)) \<and>
     is_fixed2 (format_f 2 (res_fraction_absorbed r)) \<and>
     is_sci2 (format_e 2 (res_energy_to_steam r)) \<and>
     is_plain_int (format_f 0 (res_m_water_tonnes r)) \<and>
     is_plain_int (str_int (res_num_flights r)) \<and>
     is_grouped_int (format_comma (res_total_cost r)) \<and>
     is_plain_int (str_int (res_reentries_per_launch r)))"
  using program_default nine_formatted_lines [OF program_default] by blast

subsection \<open>The divisions with a constant denominator\<close>



subsection \<open>The results for the default constants\<close>

text \<open>
  Claim C10. For the default constants \<^verbatim>\<open>m_water_tonnes\<close> is the double
  \<^verbatim>\<open>2.8608798584070794\<close>, which lies strictly between 0 and 150 and within 0.005
  of 2.86; \<^verbatim>\<open>num_flights\<close> is 1, \<^verbatim>\<open>total_cost\<close> is 500000 and
  \<^verbatim>\<open>reentries_per_launch\<close> is 52.
\<close>

theorem default_results:
  "m_water_tonnes default_constants = Inr (1610532183034235 / 562949953421312) \<and>
   (0::rat) < 1610532183034235 / 562949953421312 \<and>
   (1610532183034235 / 562949953421312 :: rat) < 150 \<and>
   \<bar>1610532183034235 / 562949953421312 - 2.86 :: rat\<bar> < 0.005 \<and>
   num_flights default_constants = Inr 1 \<and>
   total_cost default_constants = Inr 500000 \<and>
   reentries_per_launch default_constants = Inr 52"
  by (simp add: m_water_tonnes_default num_flights_default total_cost_default
      reentries_per_launch_default)

end
